theory Spec2Isabelle
  imports Main "HOL-Library.Char_ord" "HOL-Library.List_Lexorder" "HOL-Library.Multiset"
begin

section \<open>Strings\<close>

text \<open>
  A Python \<open>str\<close> is modelled as a \<open>string\<close>, one \<open>char\<close> per code point; the model covers
  the code points below 256. Strings are compared as Python compares them, code point by
  code point, a proper prefix being smaller: this is the lexicographic order on lists over
  the order of characters by their code.
\<close>

definition lower_char :: "char \<Rightarrow> char" where
  \<comment> \<open>\<open>str.lower()\<close> on one code point below 256: A-Z, and the Latin-1 capitals
      U+00C0..U+00DE without the multiplication sign U+00D7.\<close>
  "lower_char c =
     (let n = (of_char c :: nat)
      in if (65 \<le> n \<and> n \<le> 90) \<or> (192 \<le> n \<and> n \<le> 222 \<and> n \<noteq> 215)
         then char_of (n + 32) else c)"

definition lower :: "string \<Rightarrow> string" where
  "lower s = map lower_char s"

definition isspace :: "char \<Rightarrow> bool" where
  \<comment> \<open>\<open>str.isspace()\<close> on one code point below 256, the characters \<open>str.strip()\<close> removes.\<close>
  "isspace c =
     (let n = (of_char c :: nat)
      in (9 \<le> n \<and> n \<le> 13) \<or> (28 \<le> n \<and> n \<le> 32) \<or> n = 133 \<or> n = 160)"

definition strip :: "string \<Rightarrow> string" where
  "strip s = rev (dropWhile isspace (rev (dropWhile isspace s)))"

fun startswith :: "string \<Rightarrow> string \<Rightarrow> bool" where
  "startswith s [] = True"
| "startswith [] (c # p) = False"
| "startswith (d # s) (c # p) = (d = c \<and> startswith s p)"

fun contains :: "string \<Rightarrow> string \<Rightarrow> bool" where
  \<comment> \<open>\<open>contains q s\<close> is Python's \<open>q in s\<close>: \<open>q\<close> occurs in \<open>s\<close> as a contiguous run.\<close>
  "contains q [] = (q = [])"
| "contains q (c # s) = (startswith (c # s) q \<or> contains q s)"

section \<open>Passenger\<close>

record passenger =
  name :: string
  passport :: string
  flight_no :: string
  seat :: string
  booking_id :: string

definition generate_booking_id :: "string \<Rightarrow> string" where
  \<comment> \<open>\<open>now\<close> is the text \<open>datetime.now().strftime('%Y%m%d%H%M%S')\<close> at the moment of the call:
      the clock is read from the environment, to the second.\<close>
  "generate_booking_id now = ''BK'' @ now"

definition Passenger :: "string \<Rightarrow> string \<Rightarrow> string \<Rightarrow> string \<Rightarrow> string \<Rightarrow> passenger" where
  \<comment> \<open>\<open>Passenger.__init__\<close>; the first argument is the clock reading of this construction.\<close>
  "Passenger now n p f s =
     \<lparr>name = n, passport = p, flight_no = f, seat = s, booking_id = generate_booking_id now\<rparr>"

section \<open>Persistence target\<close>

text \<open>
  The values \<open>json.load\<close> returns. An object is the list of the items of the Python
  \<open>dict\<close>, in order, its keys distinct (the parser has kept the last of two equal keys);
  numbers are integers here, their value is never inspected.
\<close>

datatype json =
    JNull
  | JBool bool
  | JNum int
  | JStr string
  | JArr "json list"
  | JObj "(string \<times> json) list"

text \<open>
  The file at \<open>data_file\<close>, as \<open>os.path.exists\<close> and \<open>json.load\<close> see it: absent, present
  with a text that \<open>json.load\<close> rejects with \<open>JSONDecodeError\<close>, or present with a text
  that parses to a value. \<open>json.dump\<close> writes a text that parses back to the value dumped.
  Failures of the file system itself (permissions, undecodable bytes) are outside the model.
\<close>

datatype file_state = Missing | Invalid_JSON | Valid_JSON json

datatype error =
    ValueError string
  | KeyError string
  | TypeError
  | Non_str_field string
      \<comment> \<open>not a Python exception: the record of the file holds a value that is not a \<open>str\<close>
          under this key. Python stores it in the \<open>Passenger\<close> as it is; a \<open>passenger\<close> of
          this model holds strings only, and the model follows that file no further.\<close>

definition to_dict :: "passenger \<Rightarrow> json" where
  "to_dict r = JObj
     [(''booking_id'', JStr (booking_id r)),
      (''name'', JStr (name r)),
      (''passport'', JStr (passport r)),
      (''flight_no'', JStr (flight_no r)),
      (''seat'', JStr (seat r))]"

definition py_iter :: "json \<Rightarrow> error + json list" where
  \<comment> \<open>\<open>for d in data\<close>: a list gives its elements, a dict its keys, a str its characters;
      \<open>None\<close>, a bool and a number are not iterable.\<close>
  "py_iter data =
     (case data of
        JArr xs \<Rightarrow> Inr xs
      | JObj kvs \<Rightarrow> Inr (map (\<lambda>kv. JStr (fst kv)) kvs)
      | JStr s \<Rightarrow> Inr (map (\<lambda>c. JStr [c]) s)
      | _ \<Rightarrow> Inl TypeError)"

definition getitem :: "json \<Rightarrow> string \<Rightarrow> error + string" where
  \<comment> \<open>\<open>d[key]\<close> with a string key: \<open>KeyError\<close> on a dict without the key, \<open>TypeError\<close> on
      everything that is not a dict.\<close>
  "getitem d key =
     (case d of
        JObj kvs \<Rightarrow>
          (case map_of kvs key of
             None \<Rightarrow> Inl (KeyError key)
           | Some (JStr s) \<Rightarrow> Inr s
           | Some _ \<Rightarrow> Inl (Non_str_field key))
      | _ \<Rightarrow> Inl TypeError)"

definition from_record :: "string \<Rightarrow> json \<Rightarrow> error + passenger" where
  \<comment> \<open>\<open>Passenger(d["name"], d["passport"], d["flight_no"], d["seat"])\<close>: the four lookups
      in this order, then the constructor, which reads the clock. \<open>d["booking_id"]\<close> is
      not read.\<close>
  "from_record now d =
     (case getitem d ''name'' of Inl e \<Rightarrow> Inl e | Inr n \<Rightarrow>
     (case getitem d ''passport'' of Inl e \<Rightarrow> Inl e | Inr p \<Rightarrow>
     (case getitem d ''flight_no'' of Inl e \<Rightarrow> Inl e | Inr f \<Rightarrow>
     (case getitem d ''seat'' of Inl e \<Rightarrow> Inl e | Inr s \<Rightarrow>
      Inr (Passenger now n p f s)))))"

fun from_records :: "(nat \<Rightarrow> string) \<Rightarrow> nat \<Rightarrow> json list \<Rightarrow> error + passenger list" where
  \<comment> \<open>the list comprehension of \<open>load_reservations\<close>; \<open>clock k\<close> is the clock reading of the
      \<open>k\<close>-th construction. The first exception ends the comprehension.\<close>
  "from_records clock k [] = Inr []"
| "from_records clock k (d # ds) =
     (case from_record (clock k) d of Inl e \<Rightarrow> Inl e | Inr r \<Rightarrow>
     (case from_records clock (Suc k) ds of Inl e \<Rightarrow> Inl e | Inr rs \<Rightarrow>
      Inr (r # rs)))"

section \<open>AirlineSystem\<close>

record airline_system =
  data_file :: file_state  \<comment> \<open>the content of the file that \<open>self.data_file\<close> names\<close>
  reservations :: "passenger list"

definition available_flights :: "string list" where
  "available_flights = [''FL101'', ''FL102'', ''FL103'']"

fun str_nat :: "nat \<Rightarrow> string" where
  \<comment> \<open>the decimal text of a number, as an f-string prints it\<close>
  "str_nat n =
     (if n < 10 then [char_of (48 + n)]
      else str_nat (n div 10) @ [char_of (48 + n mod 10)])"

definition seats :: "string list" where
  "seats = concat (map (\<lambda>row. map (\<lambda>letter. str_nat row @ [letter]) ''ABCDEF'') [1..<11])"

definition load_reservations :: "(nat \<Rightarrow> string) \<Rightarrow> airline_system \<Rightarrow> error + airline_system" where
  \<comment> \<open>only \<open>JSONDecodeError\<close> is caught; an exception of the comprehension leaves the method
      before the assignment.\<close>
  "load_reservations clock self =
     (case data_file self of
        Missing \<Rightarrow> Inr self
      | Invalid_JSON \<Rightarrow> Inr (self\<lparr>reservations := []\<rparr>)
      | Valid_JSON data \<Rightarrow>
          (case py_iter data of Inl e \<Rightarrow> Inl e | Inr ds \<Rightarrow>
          (case from_records clock 0 ds of Inl e \<Rightarrow> Inl e | Inr rs \<Rightarrow>
           Inr (self\<lparr>reservations := rs\<rparr>))))"

definition AirlineSystem :: "(nat \<Rightarrow> string) \<Rightarrow> file_state \<Rightarrow> error + airline_system" where
  \<comment> \<open>\<open>AirlineSystem.__init__\<close> over a file: an exception of the load leaves the constructor.\<close>
  "AirlineSystem clock f = load_reservations clock \<lparr>data_file = f, reservations = []\<rparr>"

definition save_reservations :: "airline_system \<Rightarrow> airline_system" where
  "save_reservations self = self\<lparr>data_file := Valid_JSON (JArr (map to_dict (reservations self)))\<rparr>"

definition in_class :: "char \<Rightarrow> bool" where
  \<comment> \<open>the character class \<open>[A-Z0-9]\<close>\<close>
  "in_class c =
     (let n = (of_char c :: nat) in (65 \<le> n \<and> n \<le> 90) \<or> (48 \<le> n \<and> n \<le> 57))"

definition validate_passport :: "string \<Rightarrow> bool" where
  \<comment> \<open>\<open>bool(re.match(r'^[A-Z0-9]{9}$', passport))\<close>: nine characters of the class from the
      start, then \<open>$\<close>, which in Python matches at the end of the string and also just before
      a newline that is the last character of the string.\<close>
  "validate_passport pp =
     (let body = take 9 pp; rest = drop 9 pp
      in length body = 9 \<and> list_all in_class body \<and> (rest = [] \<or> rest = [char_of (10::nat)]))"

definition book_ticket ::
  "string \<Rightarrow> string \<Rightarrow> string \<Rightarrow> string \<Rightarrow> string \<Rightarrow> airline_system \<Rightarrow> error + (string \<times> airline_system)" where
  \<comment> \<open>\<open>now\<close> is the clock reading of the one \<open>Passenger\<close> constructed. An exception is raised
      before anything is changed, so \<open>Inl\<close> carries no state.\<close>
  "book_ticket now nm pp fl st self =
     (if strip nm = [] then Inl (ValueError ''Name cannot be empty'')
      else if \<not> validate_passport pp
        then Inl (ValueError ''Invalid passport number (9 alphanumeric characters required)'')
      else if fl \<notin> set available_flights then Inl (ValueError ''Invalid flight number'')
      else if st \<notin> set seats then Inl (ValueError ''Invalid seat'')
      else if list_ex (\<lambda>r. seat r = st \<and> flight_no r = fl) (reservations self)
        then Inl (ValueError ''Seat already booked'')
      else
        let passenger = Passenger now nm pp fl st;
            self1 = self\<lparr>reservations := reservations self @ [passenger]\<rparr>;
            self2 = save_reservations self1
        in Inr (booking_id passenger, self2))"

definition cancel_reservation :: "string \<Rightarrow> airline_system \<Rightarrow> bool \<times> airline_system" where
  "cancel_reservation bid self =
     (let initial_length = length (reservations self);
          self1 = self\<lparr>reservations := filter (\<lambda>r. booking_id r \<noteq> bid) (reservations self)\<rparr>
      in if length (reservations self1) < initial_length
         then (True, save_reservations self1)
         else (False, self1))"

definition view_reservations :: "airline_system \<Rightarrow> json list" where
  "view_reservations self = map to_dict (reservations self)"

section \<open>Search\<close>

text \<open>
  \<open>search_list query rs\<close> is a call of \<open>search_reservations\<close> on a list object holding \<open>rs\<close>.
  It returns the result of the call and what the list object holds afterwards:
  \<open>list.sort\<close> sorts the object in place (a stable sort, as \<open>sort_key\<close> is). The slices
  \<open>reservations[:mid]\<close> and \<open>reservations[mid:]\<close> of the recursive calls are new list
  objects, so what a recursive call does to its list is dropped.
\<close>

function search_list :: "string \<Rightarrow> passenger list \<Rightarrow> passenger list \<times> passenger list" where
  "search_list query rs =
     (if query = [] then (rs, rs)
      else if length rs = 0 then ([], rs)
      else
        let srt = sort_key (\<lambda>x. lower (name x)) rs;
            mid = length srt div 2;
            mid_name = lower (name (srt ! mid));
            q = lower query
        in if mid_name = q then ([srt ! mid], srt)
           else if length srt = 1
             then (if contains q mid_name then [srt ! 0] else [], srt)
           else if q < mid_name
             then (fst (search_list q (take mid srt)), srt)
           else (fst (search_list q (drop mid srt)), srt))"
  by pat_completeness auto
termination
proof (relation "measure (\<lambda>(q, rs). length rs)")
  fix query :: string and rs srt :: "passenger list" and mid :: nat
  assume nonempty: "length rs \<noteq> 0" and srt: "srt = sort_key (\<lambda>x. lower (name x)) rs"
    and mid: "mid = length srt div 2" and several: "length srt \<noteq> 1"
  from srt have len: "length srt = length rs"
    by simp
  from nonempty several len mid have "mid < length rs" and "length rs - mid < length rs"
    by arith+
  with len show "\<And>q. ((q, take mid srt), (query, rs)) \<in> measure (\<lambda>(q, rs). length rs)"
    and "\<And>q. ((q, drop mid srt), (query, rs)) \<in> measure (\<lambda>(q, rs). length rs)"
    by auto
qed simp

declare search_list.simps [simp del]

definition search_reservations :: "string \<Rightarrow> airline_system \<Rightarrow> passenger list \<times> airline_system" where
  \<comment> \<open>the call without a \<open>reservations\<close> argument: the list searched, and sorted, is
      \<open>self.reservations\<close> itself.\<close>
  "search_reservations query self =
     (let (result, rs) = search_list query (reservations self)
      in (result, self\<lparr>reservations := rs\<rparr>))"

section \<open>Example data\<close>

definition noon :: string where
  "noon = ''20240101120000''"

definition later :: string where
  "later = ''20240101120001''"

definition clock_at :: "string \<Rightarrow> nat \<Rightarrow> string" where
  \<comment> \<open>a clock that shows the second \<open>t\<close> at every reading of one operation\<close>
  "clock_at t k = t"

definition alice :: passenger where
  "alice = Passenger noon ''Alice'' ''ABCDEFGH1'' ''FL101'' ''1A''"

definition alice_too :: passenger where
  "alice_too = Passenger later ''ALICE'' ''ABCDEFGH2'' ''FL102'' ''1A''"

definition alicia :: passenger where
  "alicia = Passenger later ''Alicia'' ''ABCDEFGH3'' ''FL101'' ''2B''"

definition bob :: passenger where
  "bob = Passenger later ''Bob'' ''ABCDEFGH4'' ''FL103'' ''10F''"

definition newline_passport :: string where
  "newline_passport = ''ABCDEFGH1'' @ [char_of (10::nat)]"

definition empty_store :: airline_system where
  "empty_store = \<lparr>data_file = Missing, reservations = []\<rparr>"

definition store_of :: "passenger list \<Rightarrow> airline_system" where
  \<comment> \<open>a store holding \<open>rs\<close>, as it stands after a save\<close>
  "store_of rs = save_reservations \<lparr>data_file = Missing, reservations = rs\<rparr>"

section \<open>Facts about strings\<close>

lemma lower_char_idem: "lower_char (lower_char c) = lower_char c"
  unfolding lower_char_def Let_def
  by (auto simp: of_char_of)

lemma lower_idem: "lower (lower s) = lower s"
  by (simp add: lower_def lower_char_idem)

lemma lower_Nil: "(lower s = []) = (s = [])"
  by (simp add: lower_def)

section \<open>Search: termination\<close>

text \<open>
  \<open>search_list_rel y x\<close> is the call relation of the definition of \<open>search_list\<close>: the call
  on \<open>x\<close> makes a recursive call on \<open>y\<close>. Every such call is on a shorter list, and no
  call on a list of one element makes one.
\<close>

lemma search_list_call_shorter:
  "search_list_rel y x \<Longrightarrow> length (snd y) < length (snd x) \<and> length (snd x) \<noteq> 1"
proof (erule search_list_rel.cases)
  fix query :: string and rs srt :: "passenger list" and mid :: nat and q :: string
  assume nonempty: "length rs \<noteq> 0" and srt: "srt = sort_key (\<lambda>x. lower (name x)) rs"
    and mid: "mid = length srt div 2" and several: "length srt \<noteq> 1"
    and x: "x = (query, rs)"
  from srt have len: "length srt = length rs"
    by simp
  from nonempty several len mid have less: "mid < length rs" "length rs - mid < length rs"
    by arith+
  {
    assume "y = (q, take mid srt)"
    with x len less several show "length (snd y) < length (snd x) \<and> length (snd x) \<noteq> 1"
      by simp
  next
    assume "y = (q, drop mid srt)"
    with x len less several show "length (snd y) < length (snd x) \<and> length (snd x) \<noteq> 1"
      by simp
  }
qed

lemma search_list_total: "search_list_dom x"
proof -
  have "wf (measure (\<lambda>x :: string \<times> passenger list. length (snd x)))"
    by simp
  moreover have "{(y, x). search_list_rel y x} \<subseteq> measure (\<lambda>x. length (snd x))"
    using search_list_call_shorter by auto
  ultimately have "wfp search_list_rel"
    unfolding wfp_def by (rule wf_subset)
  then show ?thesis
    by (rule accp_wfpD)
qed

lemma search_list_singleton:
  "query \<noteq> [] \<Longrightarrow> search_list query [r] =
     (if lower (name r) = lower query \<or> contains (lower query) (lower (name r)) then [r] else [],
      [r])"
  by (subst search_list.simps) (simp add: Let_def)

text \<open>
  C9: \<open>search_reservations\<close> terminates on every input. Every argument is in the domain
  on which the recursion is well-founded; each recursive call is made on a list strictly
  shorter than the caller's, and never by a call on a list of exactly one reservation,
  where the result is decided by the comparison and the substring check alone.
\<close>

theorem search_terminates:
  "(\<forall>query rs. search_list_dom (query, rs)) \<and>
   (\<forall>query rs q' rs'. search_list_rel (q', rs') (query, rs) \<longrightarrow>
      length rs' < length rs \<and> length rs \<noteq> 1) \<and>
   (\<forall>query r. query \<noteq> [] \<longrightarrow>
      search_list query [r] =
        (if lower (name r) = lower query \<or> contains (lower query) (lower (name r))
         then [r] else [], [r]))"
  using search_list_total search_list_call_shorter search_list_singleton
  by fastforce

theorem search_terminates_witness:
  "search_list_rel (''alic'', [alice]) (''Alic'', [alicia, alice]) \<and>
   length [alice] < length [alicia, alice] \<and> length [alicia, alice] \<noteq> 1 \<and>
   ''bo'' \<noteq> [] \<and> search_list ''bo'' [bob] = ([bob], [bob])"
proof -
  have call: "search_list_rel (''alic'', [alice]) (''Alic'', [alicia, alice])"
  proof -
    have "search_list_rel
        (lower ''Alic'',
         take (length (sort_key (\<lambda>x. lower (name x)) [alicia, alice]) div 2)
           (sort_key (\<lambda>x. lower (name x)) [alicia, alice]))
        (''Alic'', [alicia, alice])"
      by (rule search_list_rel.intros(1)[OF _ _ refl refl refl refl]) code_simp+
    moreover have "lower ''Alic'' = ''alic''"
      by code_simp
    moreover have "take (length (sort_key (\<lambda>x. lower (name x)) [alicia, alice]) div 2)
        (sort_key (\<lambda>x. lower (name x)) [alicia, alice]) = [alice]"
      by code_simp
    ultimately show ?thesis
      by simp
  qed
  have single: "search_list ''bo'' [bob] = ([bob], [bob])"
  proof -
    have "lower (name bob) = lower ''bo'' \<or> contains (lower ''bo'') (lower (name bob))"
      by code_simp
    with search_terminates show ?thesis
      by simp
  qed
  from search_terminates call have "length [alice] < length [alicia, alice] \<and> length [alicia, alice] \<noteq> 1"
    by blast
  with call single show ?thesis
    by simp
qed

section \<open>Search: results\<close>

lemma search_reservations_result:
  "fst (search_reservations query self) = fst (search_list query (reservations self))"
  by (simp add: search_reservations_def split: prod.splits)

lemma search_list_at_most_one: "query \<noteq> [] \<Longrightarrow> length (fst (search_list query rs)) \<le> 1"
proof (induction query rs rule: search_list.induct)
  case (1 query rs)
  have q: "lower query \<noteq> []"
    using "1.prems" by (simp add: lower_Nil)
  show ?case
    using "1.IH" q "1.prems"
    by (subst search_list.simps) (auto simp: Let_def)
qed

lemma search_list_empty_query: "search_list [] rs = (rs, rs)"
  by (subst search_list.simps) simp

text \<open>
  C10: for every reservation sequence and every non-empty query, the search returns at
  most one reservation, on a list passed explicitly and on the store's own list alike.
  Only the empty query gives more: it returns the whole collection.
\<close>

theorem search_at_most_one_result:
  "(query \<noteq> [] \<longrightarrow> length (fst (search_reservations query self)) \<le> 1) \<and>
   (query \<noteq> [] \<longrightarrow> length (fst (search_list query rs)) \<le> 1) \<and>
   fst (search_reservations [] self) = reservations self \<and>
   fst (search_list [] rs) = rs"
  using search_list_at_most_one
  by (simp add: search_reservations_result search_list_empty_query)

theorem search_at_most_one_result_witness:
  "''ali'' \<noteq> [] \<and>
   length (fst (search_reservations ''ali'' (store_of [alice, alice_too, alicia, bob]))) \<le> 1 \<and>
   length (fst (search_list ''ali'' [alice, alice_too, alicia, bob])) \<le> 1 \<and>
   fst (search_list [] [alice, alice_too, alicia, bob]) = [alice, alice_too, alicia, bob]"
  using search_at_most_one_result[of "''ali''" "store_of [alice, alice_too, alicia, bob]"
      "[alice, alice_too, alicia, bob]"]
  by simp

lemma search_list_midpoint:
  assumes "rs \<noteq> []" and "query \<noteq> []"
    and "lower (name (sort_key (\<lambda>x. lower (name x)) rs ! (length rs div 2))) = lower query"
  shows "fst (search_list query rs) = [sort_key (\<lambda>x. lower (name x)) rs ! (length rs div 2)]"
  using assms by (subst search_list.simps) (simp add: Let_def)

lemma search_list_exact:
  "query \<noteq> [] \<Longrightarrow> \<exists>r\<in>set rs. lower (name r) = lower query \<Longrightarrow>
   \<exists>r\<in>set rs. lower (name r) = lower query \<and> fst (search_list query rs) = [r]"
proof (induction query rs rule: search_list.induct)
  case (1 query rs)
  define srt where "srt = sort_key (\<lambda>x. lower (name x)) rs"
  define mid where "mid = length srt div 2"
  define q where "q = lower query"
  from "1.prems" obtain r where r: "r \<in> set srt" "lower (name r) = q"
    by (auto simp: srt_def q_def)
  then obtain i where i: "i < length srt" "srt ! i = r"
    by (auto simp: in_set_conv_nth)
  have sorted: "sorted (map (\<lambda>x. lower (name x)) srt)"
    by (simp add: srt_def)
  have nonempty: "length rs \<noteq> 0" "rs \<noteq> []" "query \<noteq> []" "q \<noteq> []"
    using "1.prems" by (auto simp: q_def lower_Nil)
  have mid_less: "mid < length srt"
    using i by (simp add: mid_def)
  have unfold: "fst (search_list query rs) =
     (if lower (name (srt ! mid)) = q then [srt ! mid]
      else if length srt = 1 then (if contains q (lower (name (srt ! mid))) then [srt ! 0] else [])
      else if q < lower (name (srt ! mid)) then fst (search_list q (take mid srt))
      else fst (search_list q (drop mid srt)))"
    using nonempty by (subst search_list.simps) (simp add: Let_def srt_def mid_def q_def)
  show ?case
  proof (cases "lower (name (srt ! mid)) = q")
    case True
    from mid_less have "srt ! mid \<in> set rs"
      using nth_mem[of mid srt] by (simp add: srt_def)
    with unfold True show ?thesis
      by (simp add: q_def)
  next
    case differs: False
    show ?thesis
    proof (cases "length srt = 1")
      case True
      with i have "mid = 0" "i = 0" by (simp_all add: mid_def)
      with i r differs show ?thesis by simp
    next
      case several: False
      show ?thesis
      proof (cases "q < lower (name (srt ! mid))")
        case True
        have "i < mid"
        proof (rule ccontr)
          assume "\<not> i < mid"
          then have "mid \<le> i" by simp
          with sorted i have "lower (name (srt ! mid)) \<le> lower (name (srt ! i))"
            using sorted_nth_mono[of "map (\<lambda>x. lower (name x)) srt" mid i] by simp
          with i r True show False by simp
        qed
        with i have "r \<in> set (take mid srt)"
          by (auto simp: in_set_conv_nth)
        with r have "\<exists>r\<in>set (take mid srt). lower (name r) = lower q"
          by (auto simp: q_def lower_idem)
        from "1.IH"(1)[OF nonempty(3) nonempty(1) srt_def mid_def refl q_def _ several True
            nonempty(4) this] differs
        obtain r' where "r' \<in> set (take mid srt)" "lower (name r') = lower q"
          "fst (search_list q (take mid srt)) = [r']"
          by auto
        with unfold differs several True show ?thesis
          by (auto simp: q_def lower_idem srt_def dest: in_set_takeD)
      next
        case False
        have "mid \<le> i"
        proof (rule ccontr)
          assume "\<not> mid \<le> i"
          then have "i \<le> mid" by simp
          with sorted mid_less have "lower (name (srt ! i)) \<le> lower (name (srt ! mid))"
            using sorted_nth_mono[of "map (\<lambda>x. lower (name x)) srt" i mid] by simp
          with i r False differs show False by simp
        qed
        with i have "r \<in> set (drop mid srt)"
          by (auto simp: in_set_conv_nth intro!: exI[of _ "i - mid"])
        with r have "\<exists>r\<in>set (drop mid srt). lower (name r) = lower q"
          by (auto simp: q_def lower_idem)
        from "1.IH"(2)[OF nonempty(3) nonempty(1) srt_def mid_def refl q_def _ several False
            nonempty(4) this] differs
        obtain r' where "r' \<in> set (drop mid srt)" "lower (name r') = lower q"
          "fst (search_list q (drop mid srt)) = [r']"
          by auto
        with unfold differs several False show ?thesis
          by (auto simp: q_def lower_idem srt_def dest: in_set_dropD)
      qed
    qed
  qed
qed

text \<open>
  C8: for a non-empty sequence and a non-empty query, when the lowercased name at index
  \<open>length // 2\<close> of the sequence sorted by lowercased name equals the lowercased query, the
  search returns that one record and nothing else, whatever other records carry the same
  name. In particular a store whose one reservation is named Alice answers the query
  alice with that record; so does any collection in which that reservation is the only
  one whose lowercased name is alice.
\<close>

theorem search_exact_match:
  "(rs \<noteq> [] \<and> query \<noteq> [] \<and>
    lower (name (sort_key (\<lambda>x. lower (name x)) rs ! (length rs div 2))) = lower query \<longrightarrow>
      fst (search_list query rs) = [sort_key (\<lambda>x. lower (name x)) rs ! (length rs div 2)]) \<and>
   (reservations self \<noteq> [] \<and> query \<noteq> [] \<and>
    lower (name (sort_key (\<lambda>x. lower (name x)) (reservations self) !
      (length (reservations self) div 2))) = lower query \<longrightarrow>
      fst (search_reservations query self) =
        [sort_key (\<lambda>x. lower (name x)) (reservations self) ! (length (reservations self) div 2)]) \<and>
   (name r = ''Alice'' \<longrightarrow> fst (search_list ''alice'' [r]) = [r]) \<and>
   (r \<in> set rs \<and> name r = ''Alice'' \<and> (\<forall>x\<in>set rs. lower (name x) = ''alice'' \<longrightarrow> x = r) \<longrightarrow>
      fst (search_list ''alice'' rs) = [r])"
proof (intro conjI impI; (elim conjE)?)
  assume "rs \<noteq> []" "query \<noteq> []"
    "lower (name (sort_key (\<lambda>x. lower (name x)) rs ! (length rs div 2))) = lower query"
  then show "fst (search_list query rs) = [sort_key (\<lambda>x. lower (name x)) rs ! (length rs div 2)]"
    by (rule search_list_midpoint)
next
  assume "reservations self \<noteq> []" "query \<noteq> []"
    "lower (name (sort_key (\<lambda>x. lower (name x)) (reservations self) !
        (length (reservations self) div 2))) = lower query"
  then have "fst (search_list query (reservations self)) =
      [sort_key (\<lambda>x. lower (name x)) (reservations self) ! (length (reservations self) div 2)]"
    by (rule search_list_midpoint)
  then show "fst (search_reservations query self) =
      [sort_key (\<lambda>x. lower (name x)) (reservations self) ! (length (reservations self) div 2)]"
    by (simp only: search_reservations_result)
next
  assume r: "name r = ''Alice''"
  have "lower ''Alice'' = lower ''alice''"
    by code_simp
  with r have "lower (name (sort_key (\<lambda>x. lower (name x)) [r] ! (length [r] div 2))) = lower ''alice''"
    by simp
  from search_list_midpoint[OF _ _ this] show "fst (search_list ''alice'' [r]) = [r]"
    by simp
next
  assume r: "r \<in> set rs" "name r = ''Alice''"
    and only: "\<forall>x\<in>set rs. lower (name x) = ''alice'' \<longrightarrow> x = r"
  have low: "lower ''Alice'' = lower ''alice''" "lower ''alice'' = ''alice''"
    by code_simp+
  from r low have "\<exists>x\<in>set rs. lower (name x) = lower ''alice''"
    by (intro bexI[of _ r]) simp_all
  from search_list_exact[OF _ this]
  obtain x where x: "x \<in> set rs" "lower (name x) = lower ''alice''"
    "fst (search_list ''alice'' rs) = [x]"
    by auto
  from x(1,2) only low(2) have "x = r"
    by simp
  with x(3) show "fst (search_list ''alice'' rs) = [r]"
    by simp
qed

theorem search_exact_match_witness:
  "[alice, bob, alice_too] \<noteq> [] \<and> ''aLiCe'' \<noteq> [] \<and>
   lower (name (sort_key (\<lambda>x. lower (name x)) [alice, bob, alice_too] !
     (length [alice, bob, alice_too] div 2))) = lower ''aLiCe'' \<and>
   fst (search_list ''aLiCe'' [alice, bob, alice_too]) = [alice_too] \<and>
   fst (search_reservations ''aLiCe'' (store_of [alice, bob, alice_too])) = [alice_too] \<and>
   name alice = ''Alice'' \<and> fst (search_list ''alice'' [alice]) = [alice] \<and>
   alice \<in> set [bob, alicia, alice] \<and>
   lower (name bob) \<noteq> ''alice'' \<and> lower (name alicia) \<noteq> ''alice'' \<and>
   fst (search_list ''alice'' [bob, alicia, alice]) = [alice]"
proof -
  have mid: "sort_key (\<lambda>x. lower (name x)) [alice, bob, alice_too] !
      (length [alice, bob, alice_too] div 2) = alice_too"
    by code_simp
  have same: "lower (name alice_too) = lower ''aLiCe''"
    by code_simp
  have store: "reservations (store_of [alice, bob, alice_too]) = [alice, bob, alice_too]"
    by (simp add: store_of_def save_reservations_def)
  have named: "name alice = ''Alice''"
    by (simp add: alice_def Passenger_def)
  have others: "lower (name bob) \<noteq> ''alice''" "lower (name alicia) \<noteq> ''alice''"
    by code_simp+
  then have only: "\<forall>x\<in>set [bob, alicia, alice]. lower (name x) = ''alice'' \<longrightarrow> x = alice"
    by simp
  show ?thesis
    using search_exact_match[of "[alice, bob, alice_too]" "''aLiCe''" "store_of [alice, bob, alice_too]" alice]
      search_exact_match[of "[bob, alicia, alice]" "''alice''" empty_store alice]
      mid same store named only others
    by simp
qed

section \<open>Loading\<close>

text \<open>
  C3, as amended: a store constructed over a file whose text is not valid JSON starts with
  an empty reservation collection and no exception reaches the caller; the same holds when
  the file does not exist. Nothing is promised for a text that is valid JSON of another
  shape than an array of reservation records.
\<close>

theorem load_invalid_json_starts_empty:
  "AirlineSystem clock Invalid_JSON = Inr \<lparr>data_file = Invalid_JSON, reservations = []\<rparr> \<and>
   AirlineSystem clock Missing = Inr \<lparr>data_file = Missing, reservations = []\<rparr>"
  by (simp add: AirlineSystem_def load_reservations_def)

text \<open>
  The claim as written, for every content that is not a well-formed array of reservation
  records, fails: only \<open>JSONDecodeError\<close> is caught. An array holding an object without
  the key \<open>name\<close> raises \<open>KeyError\<close>, a number instead of the array or inside it raises
  \<open>TypeError\<close>, and the constructor passes the exception on.
\<close>

theorem load_wrong_shape_raises_counterexample:
  "AirlineSystem (clock_at noon) (Valid_JSON (JArr [JObj []])) = Inl (KeyError ''name'') \<and>
   AirlineSystem (clock_at noon) (Valid_JSON (JNum 5)) = Inl TypeError \<and>
   AirlineSystem (clock_at noon) (Valid_JSON (JArr [JNum 5])) = Inl TypeError"
  by code_simp

text \<open>
  What a reload does to a file the store has written itself: every record comes back with
  its name, passport, flight and seat, and with a booking id made from the clock at the
  moment of the reload. The \<open>booking_id\<close> in the file is not read.
\<close>

lemma from_record_to_dict: "from_record now (to_dict r) = Inr (r\<lparr>booking_id := generate_booking_id now\<rparr>)"
  by (simp add: from_record_def to_dict_def getitem_def Passenger_def)

lemma from_records_to_dict:
  "from_records clock k (map to_dict rs) =
     Inr (map (\<lambda>(i, r). r\<lparr>booking_id := generate_booking_id (clock i)\<rparr>) (zip [k..<k + length rs] rs))"
proof (induction rs arbitrary: k)
  case Nil
  then show ?case by simp
next
  case (Cons r rs)
  have "[k..<k + length (r # rs)] = k # [Suc k..<Suc k + length rs]"
    by (simp add: upt_rec)
  with Cons.IH[of "Suc k"] show ?case
    by (simp add: from_record_to_dict)
qed

lemma reload_regenerates_ids:
  "AirlineSystem clock (data_file (save_reservations self)) =
     Inr \<lparr>data_file = data_file (save_reservations self),
          reservations = map (\<lambda>(i, r). r\<lparr>booking_id := generate_booking_id (clock i)\<rparr>)
            (zip [0..<length (reservations self)] (reservations self))\<rparr>"
  using from_records_to_dict[of clock 0 "reservations self"]
  by (simp add: AirlineSystem_def load_reservations_def save_reservations_def py_iter_def)

text \<open>
  C1: a booking at noon, saved, and reloaded one second later into a fresh store. The
  listing of the fresh store differs from the listing of the store that made the booking
  in the field \<open>booking_id\<close>, so the round trip is not field-for-field.
\<close>

theorem reload_changes_booking_id:
  "book_ticket noon ''Alice'' ''ABCDEFGH1'' ''FL101'' ''1A'' empty_store =
     Inr (''BK20240101120000'', store_of [alice]) \<and>
   view_reservations (store_of [alice]) =
     [JObj [(''booking_id'', JStr ''BK20240101120000''), (''name'', JStr ''Alice''),
            (''passport'', JStr ''ABCDEFGH1''), (''flight_no'', JStr ''FL101''),
            (''seat'', JStr ''1A'')]] \<and>
   map_sum id view_reservations (AirlineSystem (clock_at later) (data_file (store_of [alice]))) =
     Inr [JObj [(''booking_id'', JStr ''BK20240101120001''), (''name'', JStr ''Alice''),
                (''passport'', JStr ''ABCDEFGH1''), (''flight_no'', JStr ''FL101''),
                (''seat'', JStr ''1A'')]]"
  by code_simp

text \<open>
  C4: two states the operations reach in which two active reservations hold one booking
  id. A store loaded from a file of two records gives both the id of the second in which
  it is loaded, although the ids in the file differ; and two bookings made within one
  second receive the same id.
\<close>

theorem booking_ids_collide:
  "map_sum id (map booking_id \<circ> reservations)
     (AirlineSystem (clock_at later) (data_file (store_of [alice, bob]))) =
     Inr [''BK20240101120001'', ''BK20240101120001''] \<and>
   map booking_id (reservations (store_of [alice, bob])) =
     [''BK20240101120000'', ''BK20240101120001''] \<and>
   book_ticket noon ''Bob'' ''ABCDEFGH4'' ''FL101'' ''1B'' (store_of [alice]) =
     Inr (''BK20240101120000'', store_of [alice, Passenger noon ''Bob'' ''ABCDEFGH4'' ''FL101'' ''1B'']) \<and>
   \<not> distinct (map booking_id
     (reservations (store_of [alice, Passenger noon ''Bob'' ''ABCDEFGH4'' ''FL101'' ''1B''])))"
  by code_simp

section \<open>Booking\<close>

text \<open>
  The passports \<open>validate_passport\<close> accepts: nine characters of the class, or nine
  characters of the class followed by one newline.
\<close>

lemma validate_passport_shape:
  "validate_passport pp \<longleftrightarrow>
     (length pp = 9 \<and> list_all in_class pp) \<or>
     (length pp = 10 \<and> list_all in_class (take 9 pp) \<and> pp ! 9 = char_of (10::nat))"
proof -
  have "drop 9 pp = [c] \<longleftrightarrow> length pp = 10 \<and> pp ! 9 = c" for c
  proof
    assume d: "drop 9 pp = [c]"
    then have "length (drop 9 pp) = 1" by simp
    then have l: "length pp = 10" by simp
    from d have "drop 9 pp ! 0 = c" by simp
    with l show "length pp = 10 \<and> pp ! 9 = c" by simp
  next
    assume "length pp = 10 \<and> pp ! 9 = c"
    then have l: "length pp = 10" and c: "pp ! 9 = c"
      by simp_all
    from l have "drop 9 pp = pp ! 9 # drop (Suc 9) pp"
      by (intro Cons_nth_drop_Suc[symmetric]) simp
    with l c show "drop 9 pp = [c]"
      by simp
  qed
  then show ?thesis
    unfolding validate_passport_def Let_def
    by (auto simp: min_def split: if_splits)
qed

text \<open>
  C5: a passport of ten characters, nine of the class and a final newline, passes
  \<open>validate_passport\<close> and the booking succeeds, so a passport is not accepted only if it
  has exactly nine characters. The two passports the claim names behave as it says: AB12
  is refused with the passport error, ABCDEFGH1 is a valid passport.
\<close>

theorem passport_trailing_newline_accepted:
  "length newline_passport = 10 \<and>
   validate_passport newline_passport \<and>
   book_ticket noon ''Alice'' newline_passport ''FL101'' ''1A'' empty_store =
     Inr (''BK20240101120000'', store_of [Passenger noon ''Alice'' newline_passport ''FL101'' ''1A'']) \<and>
   book_ticket noon ''Alice'' ''AB12'' ''FL101'' ''1A'' empty_store =
     Inl (ValueError ''Invalid passport number (9 alphanumeric characters required)'') \<and>
   validate_passport ''ABCDEFGH1''"
  by code_simp

text \<open>
  C6: when the store holds a reservation for a flight and seat, a booking of the same
  flight and seat never succeeds; and when the fields of the call are valid (a name that
  is not blank, a valid passport, a known flight, a known seat) it fails with the error
  of the taken seat, \<open>ValueError('Seat already booked')\<close>, the conflict of the
  specification.
\<close>

theorem book_taken_seat_fails:
  "r \<in> set (reservations self) \<and> flight_no r = fl \<and> seat r = st \<longrightarrow>
     isl (book_ticket now nm pp fl st self) \<and>
     (strip nm \<noteq> [] \<and> validate_passport pp \<and> fl \<in> set available_flights \<and> st \<in> set seats \<longrightarrow>
        book_ticket now nm pp fl st self = Inl (ValueError ''Seat already booked''))"
  by (auto simp: book_ticket_def list_ex_iff)

theorem book_taken_seat_fails_witness:
  "alice \<in> set (reservations (store_of [bob, alice])) \<and>
   flight_no alice = ''FL101'' \<and> seat alice = ''1A'' \<and>
   strip ''Carol'' \<noteq> [] \<and> validate_passport ''ABCDEFGH5'' \<and>
   ''FL101'' \<in> set available_flights \<and> ''1A'' \<in> set seats \<and>
   isl (book_ticket later ''Carol'' ''ABCDEFGH5'' ''FL101'' ''1A'' (store_of [bob, alice])) \<and>
   book_ticket later ''Carol'' ''ABCDEFGH5'' ''FL101'' ''1A'' (store_of [bob, alice]) =
     Inl (ValueError ''Seat already booked'')"
proof -
  have held: "alice \<in> set (reservations (store_of [bob, alice]))"
    by (simp add: store_of_def save_reservations_def)
  have pair: "flight_no alice = ''FL101''" "seat alice = ''1A''"
    by (simp_all add: alice_def Passenger_def)
  have valid: "strip ''Carol'' \<noteq> []" "validate_passport ''ABCDEFGH5''"
    "''FL101'' \<in> set available_flights" "''1A'' \<in> set seats"
    by code_simp+
  from book_taken_seat_fails[of alice "store_of [bob, alice]" "''FL101''" "''1A''" later "''Carol''" "''ABCDEFGH5''"]
    held pair valid
  have "isl (book_ticket later ''Carol'' ''ABCDEFGH5'' ''FL101'' ''1A'' (store_of [bob, alice])) \<and>
     book_ticket later ''Carol'' ''ABCDEFGH5'' ''FL101'' ''1A'' (store_of [bob, alice]) =
       Inl (ValueError ''Seat already booked'')"
    by blast
  with held pair valid show ?thesis
    by (intro conjI) simp_all
qed

section \<open>Cancelling\<close>

lemma filter_shorter_iff: "length (filter P xs) < length xs \<longleftrightarrow> (\<exists>x\<in>set xs. \<not> P x)"
proof
  assume "length (filter P xs) < length xs"
  then have "filter P xs \<noteq> xs"
    by auto
  then show "\<exists>x\<in>set xs. \<not> P x"
    by (auto simp: filter_id_conv)
next
  assume "\<exists>x\<in>set xs. \<not> P x"
  then show "length (filter P xs) < length xs"
    by (auto intro: length_filter_less)
qed

lemma cancel_absent:
  assumes "bid \<notin> booking_id ` set (reservations self)"
  shows "cancel_reservation bid self = (False, self)"
proof -
  from assms have keep: "filter (\<lambda>r. booking_id r \<noteq> bid) (reservations self) = reservations self"
    by (auto simp: filter_id_conv)
  then show ?thesis
    by (simp add: cancel_reservation_def Let_def)
qed

lemma cancel_present:
  assumes "bid \<in> booking_id ` set (reservations self)"
  shows "cancel_reservation bid self =
    (True, save_reservations
       (self\<lparr>reservations := filter (\<lambda>r. booking_id r \<noteq> bid) (reservations self)\<rparr>))"
proof -
  from assms have "length (filter (\<lambda>r. booking_id r \<noteq> bid) (reservations self)) < length (reservations self)"
    by (auto simp: filter_shorter_iff)
  then show ?thesis
    by (simp add: cancel_reservation_def Let_def)
qed

text \<open>
  C7, as amended: cancelling a booking id that no reservation holds returns false and
  leaves the store, collection and file, unchanged. Cancelling a booking id that some
  reservation holds returns true, removes every reservation holding that id, keeps all
  others in their order, and saves; when exactly one reservation holds the id, the
  collection afterwards is the original without that one record.
\<close>

theorem cancel_removes_holders:
  "(bid \<notin> booking_id ` set (reservations self) \<longrightarrow>
      cancel_reservation bid self = (False, self)) \<and>
   (bid \<in> booking_id ` set (reservations self) \<longrightarrow>
      cancel_reservation bid self =
        (True, save_reservations
           (self\<lparr>reservations := filter (\<lambda>r. booking_id r \<noteq> bid) (reservations self)\<rparr>))) \<and>
   (reservations self = xs @ r # ys \<and> booking_id r = bid \<and>
    (\<forall>x\<in>set (xs @ ys). booking_id x \<noteq> bid) \<longrightarrow>
      cancel_reservation bid self = (True, save_reservations (self\<lparr>reservations := xs @ ys\<rparr>)))"
proof (intro conjI impI; (elim conjE)?)
  assume "bid \<notin> booking_id ` set (reservations self)"
  then show "cancel_reservation bid self = (False, self)"
    by (rule cancel_absent)
next
  assume "bid \<in> booking_id ` set (reservations self)"
  then show "cancel_reservation bid self =
    (True, save_reservations
       (self\<lparr>reservations := filter (\<lambda>r. booking_id r \<noteq> bid) (reservations self)\<rparr>))"
    by (rule cancel_present)
next
  assume rs: "reservations self = xs @ r # ys" and r: "booking_id r = bid"
    and others: "\<forall>x\<in>set (xs @ ys). booking_id x \<noteq> bid"
  from others have "filter (\<lambda>r. booking_id r \<noteq> bid) xs = xs" "filter (\<lambda>r. booking_id r \<noteq> bid) ys = ys"
    by (auto simp: filter_id_conv)
  with rs r have "filter (\<lambda>r. booking_id r \<noteq> bid) (reservations self) = xs @ ys"
    by simp
  moreover from rs r have "bid \<in> booking_id ` set (reservations self)"
    by auto
  ultimately show "cancel_reservation bid self = (True, save_reservations (self\<lparr>reservations := xs @ ys\<rparr>))"
    by (simp add: cancel_present)
qed

theorem cancel_removes_holders_witness:
  "''BK2024'' \<notin> booking_id ` set (reservations (store_of [alicia, alice, bob])) \<and>
   cancel_reservation ''BK2024'' (store_of [alicia, alice, bob]) = (False, store_of [alicia, alice, bob]) \<and>
   ''BK20240101120000'' \<in> booking_id ` set (reservations (store_of [alicia, alice, bob])) \<and>
   reservations (store_of [alicia, alice, bob]) = [alicia] @ alice # [bob] \<and>
   booking_id alice = ''BK20240101120000'' \<and>
   booking_id alicia \<noteq> ''BK20240101120000'' \<and> booking_id bob \<noteq> ''BK20240101120000'' \<and>
   cancel_reservation ''BK20240101120000'' (store_of [alicia, alice, bob]) = (True, store_of [alicia, bob])"
proof -
  have store: "reservations (store_of [alicia, alice, bob]) = [alicia] @ alice # [bob]"
    by (simp add: store_of_def save_reservations_def)
  have ids: "booking_id alice = ''BK20240101120000''"
    "booking_id alicia \<noteq> ''BK20240101120000''" "booking_id bob \<noteq> ''BK20240101120000''"
    "booking_id alicia \<noteq> ''BK2024''" "booking_id bob \<noteq> ''BK2024''" "booking_id alice \<noteq> ''BK2024''"
    by code_simp+
  have absent: "''BK2024'' \<notin> booking_id ` set (reservations (store_of [alicia, alice, bob]))"
    using store ids by simp
  have others: "\<forall>x\<in>set ([alicia] @ [bob]). booking_id x \<noteq> ''BK20240101120000''"
    using ids by simp
  have saved: "save_reservations (store_of [alicia, alice, bob]\<lparr>reservations := [alicia] @ [bob]\<rparr>) =
      store_of [alicia, bob]"
    by (simp add: store_of_def save_reservations_def)
  from cancel_removes_holders[of "''BK2024''" "store_of [alicia, alice, bob]"] absent
  have none: "cancel_reservation ''BK2024'' (store_of [alicia, alice, bob]) = (False, store_of [alicia, alice, bob])"
    by blast
  from cancel_removes_holders[of "''BK20240101120000''" "store_of [alicia, alice, bob]" "[alicia]" alice "[bob]"]
    store ids(1) others saved
  have one: "cancel_reservation ''BK20240101120000'' (store_of [alicia, alice, bob]) = (True, store_of [alicia, bob])"
    by simp
  have present: "''BK20240101120000'' \<in> booking_id ` set (reservations (store_of [alicia, alice, bob]))"
    using store ids(1) by auto
  from absent none present store ids one show ?thesis
    by (intro conjI)
qed

text \<open>
  The claim as written, for every store state, fails where two reservations hold the id
  cancelled: both are removed. Alicia and Bob were booked within one second.
\<close>

theorem cancel_removes_two_counterexample:
  "reservations (store_of [alice, alicia, bob]) = [alice, alicia, bob] \<and>
   booking_id alicia = ''BK20240101120001'' \<and>
   cancel_reservation ''BK20240101120001'' (store_of [alice, alicia, bob]) = (True, store_of [alice])"
  by code_simp

section \<open>Search: effect on the store\<close>

lemma search_list_sorts:
  "snd (search_list query rs) = (if query = [] then rs else sort_key (\<lambda>x. lower (name x)) rs)"
  by (subst search_list.simps) (simp add: Let_def)

lemma search_reservations_state:
  "snd (search_reservations query self) =
     self\<lparr>reservations := snd (search_list query (reservations self))\<rparr>"
  by (simp add: search_reservations_def split: prod.splits)

text \<open>
  C2, as amended: a search writes no file and neither adds nor removes a reservation, but
  it does not leave the collection as it was. With a non-empty query the store's own list
  is sorted in place, so afterwards it holds the same reservations in ascending order of
  lowercased name (reservations of equal lowercased name keep their relative order); with
  the empty query the collection is unchanged.
\<close>

theorem search_reorders_store:
  "data_file (snd (search_reservations query self)) = data_file self \<and>
   mset (reservations (snd (search_reservations query self))) = mset (reservations self) \<and>
   reservations (snd (search_reservations query self)) =
     (if query = [] then reservations self
      else sort_key (\<lambda>x. lower (name x)) (reservations self))"
  by (simp add: search_reservations_state search_list_sorts)

theorem search_reorders_store_witness:
  "''x'' \<noteq> [] \<and>
   data_file (snd (search_reservations ''x'' (store_of [bob, alice]))) = data_file (store_of [bob, alice]) \<and>
   mset (reservations (snd (search_reservations ''x'' (store_of [bob, alice])))) = mset [bob, alice] \<and>
   reservations (snd (search_reservations ''x'' (store_of [bob, alice]))) = [alice, bob] \<and>
   reservations (snd (search_reservations [] (store_of [bob, alice]))) = [bob, alice]"
proof -
  have store: "reservations (store_of [bob, alice]) = [bob, alice]"
    by (simp add: store_of_def save_reservations_def)
  have sorted: "sort_key (\<lambda>x. lower (name x)) [bob, alice] = [alice, bob]"
    by code_simp
  show ?thesis
    using search_reorders_store[of "''x''" "store_of [bob, alice]"]
      search_reorders_store[of "[]" "store_of [bob, alice]"] store sorted
    by simp
qed

text \<open>
  The claim as written fails: a store holding Bob before Alice holds Alice before Bob
  after a search for \<open>x\<close>, which matches nothing.
\<close>

theorem search_changes_order_counterexample:
  "reservations (store_of [bob, alice]) = [bob, alice] \<and>
   reservations (snd (search_reservations ''x'' (store_of [bob, alice]))) = [alice, bob] \<and>
   reservations (snd (search_reservations ''x'' (store_of [bob, alice]))) \<noteq>
     reservations (store_of [bob, alice])"
  by code_simp

end
